theory Spec2Isabelle
  imports Main "HOL-Library.AList"
begin

section \<open>Values of the host language\<close>

text \<open>
  The chat client (\<^verbatim>\<open>frontend/src/services/api.js\<close> and the \<^verbatim>\<open>useChat\<close> hook) works on
  values that \<^verbatim>\<open>JSON.parse\<close> returns, and on \<^verbatim>\<open>undefined\<close>, which reading an absent
  member gives. A string is a \<^typ>\<open>string\<close> holding the text's bytes;
  a number is held as the text that \<^verbatim>\<open>String(n)\<close> gives for it, so that two numbers are
  \<^verbatim>\<open>===\<close> exactly when their texts are equal and the number is falsy exactly when its
  text is \<^verbatim>\<open>0\<close>; an object is the list of its own members in insertion order.
\<close>

datatype json =
    JUndefined
  | JNull
  | JBool bool
  | JNum string
  | JStr string
  | JArr "json list"
  | JObj "(string \<times> json) list"

text \<open>\<^verbatim>\<open>if (v)\<close>, \<^verbatim>\<open>v || d\<close>: the truthiness of a value.\<close>

fun truthy :: "json \<Rightarrow> bool" where
  "truthy JUndefined = False"
| "truthy JNull = False"
| "truthy (JBool b) = b"
| "truthy (JNum n) = (n \<noteq> ''0'')"
| "truthy (JStr s) = (s \<noteq> [])"
| "truthy (JArr xs) = True"
| "truthy (JObj kvs) = True"

text \<open>\<^verbatim>\<open>a.join(",")\<close> on strings.\<close>

fun join :: "string list \<Rightarrow> string" where
  "join [] = []"
| "join [s] = s"
| "join (s # t # ts) = s @ '','' @ join (t # ts)"

text \<open>
  The conversion to a string that \<^verbatim>\<open>+=\<close> on a string, a template literal and a
  property key apply to their operand.
\<close>

fun ToString :: "json \<Rightarrow> string" where
  "ToString JUndefined = ''undefined''"
| "ToString JNull = ''null''"
| "ToString (JBool b) = (if b then ''true'' else ''false'')"
| "ToString (JNum n) = n"
| "ToString (JStr s) = s"
| "ToString (JArr xs) = join (map (\<lambda>x. if x = JNull \<or> x = JUndefined then [] else ToString x) xs)"
| "ToString (JObj kvs) = ''[object Object]''"

text \<open>
  \<^verbatim>\<open>data.name\<close> for one of the member names the client reads (\<^verbatim>\<open>conversation_id\<close>,
  \<^verbatim>\<open>is_new\<close>, \<^verbatim>\<open>content\<close>, \<^verbatim>\<open>title\<close>, \<^verbatim>\<open>message\<close>) on a value that is neither
  \<^verbatim>\<open>null\<close> nor \<^verbatim>\<open>undefined\<close>. Only an object has such members; reading one from
  \<^verbatim>\<open>null\<close> raises a TypeError, which the callers below check first.
\<close>

fun member :: "json \<Rightarrow> string \<Rightarrow> json" where
  "member (JObj kvs) name = (case map_of kvs name of None \<Rightarrow> JUndefined | Some v \<Rightarrow> v)"
| "member _ name = JUndefined"

text \<open>
  \<^verbatim>\<open>Object.keys(data).length\<close> on such a value: the number of own
  enumerable members. An array and a string have one per element; a number and a boolean
  have none.
\<close>

fun Object_keys_length :: "json \<Rightarrow> nat" where
  "Object_keys_length (JObj kvs) = length kvs"
| "Object_keys_length (JArr xs) = length xs"
| "Object_keys_length (JStr s) = length s"
| "Object_keys_length _ = 0"

text \<open>\<^verbatim>\<open>s.startsWith(p)\<close> and \<^verbatim>\<open>s.includes(t)\<close>.\<close>

definition startsWith :: "string \<Rightarrow> string \<Rightarrow> bool" where
  "startsWith s p = (take (length p) s = p)"

fun includes_str :: "string \<Rightarrow> string \<Rightarrow> bool" where
  "includes_str [] t = (t = [])"
| "includes_str (c # s) t = (startsWith (c # s) t \<or> includes_str s t)"

text \<open>
  \<^verbatim>\<open>s.split("\n")\<close>: the pieces between line feeds, never an empty list. The last piece
  is the text after the last line feed.
\<close>

fun split :: "string \<Rightarrow> string list" where
  "split [] = [[]]"
| "split (c # cs) =
     (if c = CHR 0x0A then [] # split cs
      else (case split cs of [] \<Rightarrow> [[c]] | l # ls \<Rightarrow> (c # l) # ls))"

text \<open>
  A synchronous function that acts on a state returns normally or throws; a throw leaves
  the state as it was at that point, which is what the \<^verbatim>\<open>catch\<close> further out then sees.
  An \<^verbatim>\<open>async\<close> function resolves, or rejects with an error whose \<^verbatim>\<open>message\<close> is the
  string.
\<close>

datatype 's outcome = Returned 's | Thrown 's

datatype 's completion = Resolved 's | Rejected string 's

section \<open>The state of a session\<close>

datatype role = user | model | error

record message =
  role :: role
  content :: string

record conversation =
  id' :: json
  title :: json

text \<open>
  The persisted ledger of sticky errors: what \<^verbatim>\<open>localStorage\<close> holds under the key
  \<^verbatim>\<open>chat_errors\<close>. The text is represented by what \<^verbatim>\<open>JSON.parse\<close> makes of it: \<open>Unparsable\<close>
  when it throws, the object of entries otherwise (\<^verbatim>\<open>JSON.stringify\<close> followed by
  \<^verbatim>\<open>JSON.parse\<close> gives the entries back). \<open>None\<close> is no text under the key. A text that
  parses to something other than an object of entries, which the client never writes,
  has no representation here. Either access of the platform's storage may throw (storage
  disabled, quota exceeded): \<open>Some m\<close> is an access that throws an error with message
  \<open>m\<close>.
\<close>

record StickyError =
  content :: string
  timestamp :: int

datatype stored = Unparsable | Ledger "(string \<times> StickyError) list"

record storage =
  item :: "stored option"
  getItem_throws :: "string option"
  setItem_throws :: "string option"

text \<open>
  The React state of \<^verbatim>\<open>useChat\<close> (the first five fields), and the world around it that
  the hook acts on: the storage, the toasts fired (message, type, duration), the
  navigations made, the requests issued (message, conversation id), the labels written
  by \<^verbatim>\<open>console.error\<close>, and the clock that \<^verbatim>\<open>Date.now()\<close> reads.
\<close>

record world =
  conversations :: "conversation list"
  messages :: "message list"
  isLoading :: bool
  streamingContent :: string
  currentConversationId :: json
  localStorage :: storage
  toasts :: "(string \<times> string \<times> nat) list"
  navigations :: "string list"
  requests :: "(string \<times> json) list"
  console :: "string list"
  now :: int

text \<open>The two variables local to one call of \<^verbatim>\<open>sendMessage\<close>, which its callback updates.\<close>

record cycle = world +
  newConversationId :: json
  accumulatedContent :: string

section \<open>Sticky Error Store\<close>

definition console_error :: "string \<Rightarrow> 'a world_scheme \<Rightarrow> 'a world_scheme" where
  "console_error label w = w\<lparr>console := console w @ [label]\<rparr>"

text \<open>\<^verbatim>\<open>getStoredErrors\<close>: a failure to read or to parse is logged and gives no entries.\<close>

definition getStoredErrors ::
  "'a world_scheme \<Rightarrow> (string \<times> StickyError) list \<times> 'a world_scheme" where
  "getStoredErrors w =
     (case getItem_throws (localStorage w) of
        Some m \<Rightarrow> ([], console_error ''Failed to parse stored errors:'' w)
      | None \<Rightarrow>
          (case item (localStorage w) of
             None \<Rightarrow> ([], w)
           | Some Unparsable \<Rightarrow> ([], console_error ''Failed to parse stored errors:'' w)
           | Some (Ledger errors) \<Rightarrow> (errors, w)))"

text \<open>\<^verbatim>\<open>localStorage.setItem(ERROR_STORAGE_KEY, JSON.stringify(errors))\<close>.\<close>

definition setItem ::
  "(string \<times> StickyError) list \<Rightarrow> 'a world_scheme \<Rightarrow> 'a world_scheme outcome" where
  "setItem errors w =
     (case setItem_throws (localStorage w) of
        Some m \<Rightarrow> Thrown w
      | None \<Rightarrow> Returned (w\<lparr>localStorage := (localStorage w)\<lparr>item := Some (Ledger errors)\<rparr>\<rparr>))"

text \<open>
  \<^verbatim>\<open>errors[key] = entry\<close> on the object of entries. The key \<^verbatim>\<open>__proto__\<close> that the object
  does not have as a member of its own is the accessor of the object's prototype: the
  assignment then sets the prototype and leaves the members, which are what
  \<^verbatim>\<open>JSON.stringify\<close> writes, as they were.
\<close>

definition assign :: "string \<Rightarrow> StickyError \<Rightarrow> (string \<times> StickyError) list \<Rightarrow>
    (string \<times> StickyError) list" where
  "assign key entry errors =
     (if key = ''__proto__'' \<and> map_of errors key = None then errors
      else AList.update key entry errors)"

definition storeError :: "json \<Rightarrow> string \<Rightarrow> 'a world_scheme \<Rightarrow> 'a world_scheme outcome" where
  "storeError conversationId errorContent w =
     (case getStoredErrors w of
        (errors, w1) \<Rightarrow>
          setItem
            (assign (ToString conversationId)
               \<lparr>StickyError.content = errorContent, timestamp = now w1\<rparr> errors)
            w1)"

definition removeError :: "json \<Rightarrow> 'a world_scheme \<Rightarrow> 'a world_scheme outcome" where
  "removeError conversationId w =
     (case getStoredErrors w of
        (errors, w1) \<Rightarrow> setItem (AList.delete (ToString conversationId) errors) w1)"

text \<open>\<^verbatim>\<open>getErrorForConversation\<close>: \<open>None\<close> is \<^verbatim>\<open>null\<close>.\<close>

definition getErrorForConversation ::
  "json \<Rightarrow> 'a world_scheme \<Rightarrow> string option \<times> 'a world_scheme" where
  "getErrorForConversation conversationId w =
     (case getStoredErrors w of
        (errors, w1) \<Rightarrow>
          (case map_of errors (ToString conversationId) of
             None \<Rightarrow> (None, w1)
           | Some e \<Rightarrow>
               (if StickyError.content e = [] then (None, w1)
                else (Some (StickyError.content e), w1))))"

section \<open>Stream Decoder\<close>

text \<open>
  \<^verbatim>\<open>chatApi.sendMessage\<close> reads the response body chunk by chunk and calls \<^verbatim>\<open>onEvent\<close>
  with \<^verbatim>\<open>{ type, data }\<close> for each record it recognises.
\<close>

datatype event_type = Conversation | Delta | Title | Done | Error

type_synonym event = "event_type \<times> json"

text \<open>
  The body of the \<^verbatim>\<open>try\<close> block once \<^verbatim>\<open>JSON.parse\<close> has returned \<open>data\<close>: the
  event's type is inferred from the members present. Reading a member of \<^verbatim>\<open>null\<close>
  throws.
\<close>

definition dispatch :: "(event \<Rightarrow> 's \<Rightarrow> 's outcome) \<Rightarrow> json \<Rightarrow> 's \<Rightarrow> 's outcome" where
  "dispatch onEvent data s =
     (if data = JNull \<or> data = JUndefined then Thrown s
      else if member data ''conversation_id'' \<noteq> JUndefined then onEvent (Conversation, data) s
      else if member data ''content'' \<noteq> JUndefined then onEvent (Delta, data) s
      else if member data ''title'' \<noteq> JUndefined then onEvent (Title, data) s
      else if member data ''message'' \<noteq> JUndefined then onEvent (Error, data) s
      else if Object_keys_length data = 0 then onEvent (Done, data) s
      else Returned s)"

text \<open>
  One iteration of \<^verbatim>\<open>for (const line of lines)\<close>. \<open>JSON_parse\<close> is the platform's
  parser, \<open>None\<close> where it throws. Whatever is thrown inside the \<^verbatim>\<open>try\<close> block, by the
  parser or by the callback, is caught and logged.
\<close>

definition process_line ::
  "(string \<Rightarrow> json option) \<Rightarrow> (event \<Rightarrow> 'a world_scheme \<Rightarrow> 'a world_scheme outcome) \<Rightarrow>
   'a world_scheme \<Rightarrow> string \<Rightarrow> 'a world_scheme" where
  "process_line JSON_parse onEvent s line =
     (if startsWith line ''event: '' then s
      else if startsWith line ''data: '' then
        (case JSON_parse (drop 6 line) of
           None \<Rightarrow> console_error ''Failed to parse SSE data:'' s
         | Some data \<Rightarrow>
             (case dispatch onEvent data s of
                Returned s1 \<Rightarrow> s1
              | Thrown s1 \<Rightarrow> console_error ''Failed to parse SSE data:'' s1))
      else s)"

text \<open>
  The \<^verbatim>\<open>while (true)\<close> loop over the chunks the reader delivers (as the text decoder
  returns them), with the local \<open>buffer\<close>. The loop ends when the reader reports the end
  of the body; what is left in \<open>buffer\<close> then is not looked at.
\<close>

fun read_loop ::
  "(string \<Rightarrow> json option) \<Rightarrow> (event \<Rightarrow> 'a world_scheme \<Rightarrow> 'a world_scheme outcome) \<Rightarrow>
   string \<Rightarrow> string list \<Rightarrow> 'a world_scheme \<Rightarrow> 'a world_scheme" where
  "read_loop JSON_parse onEvent buffer [] s = s"
| "read_loop JSON_parse onEvent buffer (chunk # rest) s =
     (let lines = split (buffer @ chunk)
      in read_loop JSON_parse onEvent (last lines) rest
           (foldl (process_line JSON_parse onEvent) s (butlast lines)))"

text \<open>
  What the request meets. \<open>Failed m\<close>: no stream is established, because \<^verbatim>\<open>fetch\<close>
  rejects or the status is not ok, and \<^verbatim>\<open>chatApi.sendMessage\<close> throws an error with
  message \<open>m\<close>. \<open>Stream chunks end\<close>: the body delivers \<open>chunks\<close> and then ends, normally
  (\<open>None\<close>) or with a read that rejects with message \<open>m\<close> (\<open>Some m\<close>).
\<close>

datatype response = Failed string | Stream "string list" "string option"

text \<open>
  \<^verbatim>\<open>chatApi.sendMessage\<close>. Building the headers reads the token from the storage, which
  may throw before the request is issued.
\<close>

definition chatApi_sendMessage ::
  "(string \<Rightarrow> json option) \<Rightarrow> string \<Rightarrow> json \<Rightarrow>
   (event \<Rightarrow> 'a world_scheme \<Rightarrow> 'a world_scheme outcome) \<Rightarrow> response \<Rightarrow>
   'a world_scheme \<Rightarrow> 'a world_scheme completion" where
  "chatApi_sendMessage JSON_parse message conversationId onEvent resp s =
     (case getItem_throws (localStorage s) of
        Some m \<Rightarrow> Rejected m s
      | None \<Rightarrow>
          (let s1 = s\<lparr>requests := requests s @
                      [(message, if truthy conversationId then conversationId else JNull)]\<rparr>
           in case resp of
                Failed m \<Rightarrow> Rejected m s1
              | Stream chunks end \<Rightarrow>
                  (let s2 = read_loop JSON_parse onEvent [] chunks s1
                   in case end of None \<Rightarrow> Resolved s2 | Some m \<Rightarrow> Rejected m s2)))"

section \<open>Conversation List Synchronizer\<close>

text \<open>The updater that the \<^verbatim>\<open>title\<close> case hands to \<^verbatim>\<open>setConversations\<close>.\<close>

definition syncConversations :: "json \<Rightarrow> json \<Rightarrow> conversation list \<Rightarrow> conversation list" where
  "syncConversations conversationId newTitle prev =
     (let exists = list_ex (\<lambda>c. id' c = conversationId) prev
      in if exists then
           map (\<lambda>c. if id' c = conversationId then c\<lparr>title := newTitle\<rparr> else c) prev
         else \<lparr>id' = conversationId, title = newTitle\<rparr> # prev)"

section \<open>Conversation Session State Machine\<close>

text \<open>The marker that a quota-like error message is prefixed with, in UTF-8.\<close>

definition banner :: string where
  "banner = [CHR 0xE2, CHR 0x9A, CHR 0xA0, CHR 0xEF, CHR 0xB8, CHR 0x8F]
            @ '' Credits Limit Reached'' @ [CHR 0x0A, CHR 0x0A]"

text \<open>
  The callback of \<^verbatim>\<open>useChat.sendMessage\<close>. \<open>toLowerCase\<close> is the platform's function on
  strings; calling it on a value that is not a string throws.
\<close>

definition onEvent ::
  "(string \<Rightarrow> string) \<Rightarrow> event \<Rightarrow> 'a cycle_scheme \<Rightarrow> 'a cycle_scheme outcome" where
  "onEvent toLowerCase event c =
     (case event of
        (Conversation, data) \<Rightarrow>
          (let c1 = c\<lparr>newConversationId := member data ''conversation_id'',
                      currentConversationId := member data ''conversation_id''\<rparr>
           in if truthy (member data ''is_new'')
              then Returned (c1\<lparr>navigations := navigations c1 @
                               [''/chat/'' @ ToString (newConversationId c1)]\<rparr>)
              else Returned c1)
      | (Delta, data) \<Rightarrow>
          (let c1 = c\<lparr>accumulatedContent :=
                        accumulatedContent c @ ToString (member data ''content'')\<rparr>
           in Returned (c1\<lparr>streamingContent := accumulatedContent c1\<rparr>))
      | (Title, data) \<Rightarrow>
          Returned (c\<lparr>conversations :=
                        syncConversations (newConversationId c) (member data ''title'')
                          (conversations c)\<rparr>)
      | (Done, data) \<Rightarrow>
          (if accumulatedContent c \<noteq> [] then
             (let c1 = c\<lparr>messages := messages c @
                          [\<lparr>role = model, content = accumulatedContent c\<rparr>]\<rparr>
              in case (if truthy (newConversationId c1)
                       then removeError (newConversationId c1) c1 else Returned c1) of
                   Thrown c2 \<Rightarrow> Thrown c2
                 | Returned c2 \<Rightarrow> Returned (c2\<lparr>streamingContent := [], isLoading := False\<rparr>))
           else Returned (c\<lparr>streamingContent := [], isLoading := False\<rparr>))
      | (Error, data) \<Rightarrow>
          (case (if truthy (member data ''message'') then member data ''message''
                 else JStr ''An error occurred'') of
             JStr errorMessage \<Rightarrow>
               (let displayMessage =
                      (if includes_str (toLowerCase errorMessage) ''credit'' \<or>
                          includes_str (toLowerCase errorMessage) ''limit'' \<or>
                          includes_str (toLowerCase errorMessage) ''quota'' \<or>
                          includes_str (toLowerCase errorMessage) ''rate limit''
                       then banner @ errorMessage else errorMessage)
                in case (if truthy (newConversationId c)
                         then storeError (newConversationId c) displayMessage c
                         else Returned c) of
                     Thrown c1 \<Rightarrow> Thrown c1
                   | Returned c1 \<Rightarrow>
                       Returned (c1\<lparr>messages := messages c1 @
                                     [\<lparr>role = error, content = displayMessage\<rparr>],
                                   streamingContent := [], isLoading := False\<rparr>))
           | _ \<Rightarrow> Thrown c))"

text \<open>
  \<^verbatim>\<open>useChat.sendMessage\<close>, with what the request meets as \<open>resp\<close>. The function is a
  callback that a render creates (\<^verbatim>\<open>useCallback\<close> with \<^verbatim>\<open>isLoading\<close> and
  \<^verbatim>\<open>currentConversationId\<close> among its dependencies): the values of \<^verbatim>\<open>isLoading\<close> and
  \<^verbatim>\<open>currentConversationId\<close> it reads are those of the state \<open>rendered\<close> that this render
  saw, whatever the state \<open>w\<close> is when it is called. The setters act on \<open>w\<close>, in the order
  of the calls.
\<close>

definition sendMessage ::
  "(string \<Rightarrow> json option) \<Rightarrow> (string \<Rightarrow> string) \<Rightarrow> world \<Rightarrow> string \<Rightarrow> response \<Rightarrow>
   world \<Rightarrow> world" where
  "sendMessage JSON_parse toLowerCase rendered input resp w =
     (if isLoading rendered then w
      else
        (let userMessage = \<lparr>role = user, content = input\<rparr>;
             w1 = w\<lparr>messages := messages w @ [userMessage], isLoading := True,
                    streamingContent := []\<rparr>;
             c = world.extend w1 (cycle.fields (currentConversationId rendered) [])
         in world.truncate
              (case chatApi_sendMessage JSON_parse input (currentConversationId rendered)
                      (onEvent toLowerCase) resp c of
                 Resolved c1 \<Rightarrow> c1
               | Rejected m c1 \<Rightarrow>
                   c1\<lparr>toasts := toasts c1 @
                         [(if m = [] then ''Failed to send message'' else m, ''error'', 7000)],
                      isLoading := False, streamingContent := [],
                      messages := butlast (messages c1)\<rparr>)))"

text \<open>
  The state of a cycle in flight: \<^verbatim>\<open>sendMessage\<close> was called through a callback whose
  render was not loading, in a state whose storage yields the token, the request is
  issued, and the reader has delivered \<open>chunks\<close> without yet reporting the end of the body.
\<close>

definition awaiting ::
  "(string \<Rightarrow> json option) \<Rightarrow> (string \<Rightarrow> string) \<Rightarrow> world \<Rightarrow> string \<Rightarrow> string list \<Rightarrow>
   world \<Rightarrow> cycle" where
  "awaiting JSON_parse toLowerCase rendered input chunks w =
     read_loop JSON_parse (onEvent toLowerCase) [] chunks
       (world.extend
          (w\<lparr>messages := messages w @ [\<lparr>role = user, content = input\<rparr>],
             isLoading := True, streamingContent := [],
             requests := requests w @
               [(input, if truthy (currentConversationId rendered)
                        then currentConversationId rendered else JNull)]\<rparr>)
          (cycle.fields (currentConversationId rendered) []))"

section \<open>The decoder's contract\<close>

text \<open>
  The type inference policy in the words of the specification. A member is present when
  the payload is an object that has it (with a value other than \<^verbatim>\<open>undefined\<close>, which is
  every value the parser returns). The payload of \<^verbatim>\<open>done\<close> is the empty object.
\<close>

definition present :: "string \<Rightarrow> json \<Rightarrow> bool" where
  "present name data =
     (case data of
        JObj kvs \<Rightarrow> (case map_of kvs name of None \<Rightarrow> False | Some v \<Rightarrow> v \<noteq> JUndefined)
      | _ \<Rightarrow> False)"

definition empty_payload :: "json \<Rightarrow> bool" where
  "empty_payload data = (data = JObj [])"

definition spec_kind :: "json \<Rightarrow> event_type option" where
  "spec_kind data =
     (if present ''conversation_id'' data then Some Conversation
      else if present ''content'' data then Some Delta
      else if present ''title'' data then Some Title
      else if present ''message'' data then Some Error
      else if empty_payload data then Some Done
      else None)"

text \<open>
  The policy as the decoder applies it: in the last place stands a payload without
  members of its own, which besides the empty object is a number, a boolean, the empty
  string and the empty array.
\<close>

fun no_members :: "json \<Rightarrow> bool" where
  "no_members (JObj kvs) = (kvs = [])"
| "no_members (JArr xs) = (xs = [])"
| "no_members (JStr s) = (s = [])"
| "no_members (JNum n) = True"
| "no_members (JBool b) = True"
| "no_members JNull = False"
| "no_members JUndefined = False"

definition inferred_kind :: "json \<Rightarrow> event_type option" where
  "inferred_kind data =
     (if present ''conversation_id'' data then Some Conversation
      else if present ''content'' data then Some Delta
      else if present ''title'' data then Some Title
      else if present ''message'' data then Some Error
      else if no_members data then Some Done
      else None)"

text \<open>
  What the decoder makes of the body, as a sequence: an event handed to the callback, or
  a diagnostic logged for a record whose text does not parse or whose payload is
  \<^verbatim>\<open>null\<close>. A line that is no \<^verbatim>\<open>data:\<close> line and a payload of no known shape give
  nothing. Only the lines that a line feed ends are looked at.
\<close>

datatype decoded = Delivered event | Diagnostic

definition decode_line :: "(string \<Rightarrow> json option) \<Rightarrow> string \<Rightarrow> decoded option" where
  "decode_line JSON_parse line =
     (if startsWith line ''event: '' then None
      else if startsWith line ''data: '' then
        (case JSON_parse (drop 6 line) of
           None \<Rightarrow> Some Diagnostic
         | Some data \<Rightarrow>
             (if data = JNull \<or> data = JUndefined then Some Diagnostic
              else map_option (\<lambda>k. Delivered (k, data)) (inferred_kind data)))
      else None)"

definition decode :: "(string \<Rightarrow> json option) \<Rightarrow> string list \<Rightarrow> decoded list" where
  "decode JSON_parse chunks =
     List.map_filter (decode_line JSON_parse) (butlast (split (concat chunks)))"

fun events :: "decoded list \<Rightarrow> event list" where
  "events [] = []"
| "events (Delivered e # ds) = e # events ds"
| "events (Diagnostic # ds) = events ds"

definition deliver ::
  "(event \<Rightarrow> 'a world_scheme \<Rightarrow> 'a world_scheme outcome) \<Rightarrow> 'a world_scheme \<Rightarrow> decoded \<Rightarrow>
   'a world_scheme" where
  "deliver callback s d =
     (case d of
        Diagnostic \<Rightarrow> console_error ''Failed to parse SSE data:'' s
      | Delivered e \<Rightarrow>
          (case callback e s of
             Returned s1 \<Rightarrow> s1
           | Thrown s1 \<Rightarrow> console_error ''Failed to parse SSE data:'' s1))"

text \<open>
  The message classification policy in the words of the specification: the fixed
  vocabulary of quota and limit terms, and the content displayed for an error text.
\<close>

definition quota_terms :: "string list" where
  "quota_terms = [''credit'', ''limit'', ''quota'', ''rate limit'']"

definition classified :: "(string \<Rightarrow> string) \<Rightarrow> string \<Rightarrow> string" where
  "classified toLowerCase text =
     (if list_ex (includes_str (toLowerCase text)) quota_terms then banner @ text else text)"

section \<open>Sample inputs\<close>

text \<open>
  Inputs for the examples below: the platform's \<^verbatim>\<open>toLowerCase\<close> on ASCII text, its
  \<^verbatim>\<open>JSON.parse\<close> on the record texts the examples use, a line feed, and a session that
  has just started.
\<close>

definition toLowerCase_ascii :: "string \<Rightarrow> string" where
  "toLowerCase_ascii s =
     map (\<lambda>c. case map_of (zip ''ABCDEFGHIJKLMNOPQRSTUVWXYZ'' ''abcdefghijklmnopqrstuvwxyz'') c of
                None \<Rightarrow> c | Some l \<Rightarrow> l) s"

definition JSON_parse_sample :: "string \<Rightarrow> json option" where
  \<open>JSON_parse_sample s =
     (if s = ''{}'' then Some (JObj [])
      else if s = ''{"content": "hi"}'' then Some (JObj [(''content'', JStr ''hi'')])
      else if s = ''{"content": "Hel"}'' then Some (JObj [(''content'', JStr ''Hel'')])
      else if s = ''{"content": "lo"}'' then Some (JObj [(''content'', JStr ''lo'')])
      else if s = ''{"title": "Greeting"}'' then Some (JObj [(''title'', JStr ''Greeting'')])
      else if s = ''{"message": ""}'' then Some (JObj [(''message'', JStr [])])
      else if s = ''{"message": "unknown failure"}''
        then Some (JObj [(''message'', JStr ''unknown failure'')])
      else if s = ''{"conversation_id": "c1", "is_new": true}''
        then Some (JObj [(''conversation_id'', JStr ''c1''), (''is_new'', JBool True)])
      else if s = ''{"foo": 1}'' then Some (JObj [(''foo'', JNum ''1'')])
      else if s = ''5'' then Some (JNum ''5'')
      else if s = ''null'' then Some JNull
      else None)\<close>

definition LF :: string where
  "LF = [CHR 0x0A]"

definition fresh_session :: world where
  "fresh_session =
     \<lparr>conversations = [], messages = [], isLoading = False, streamingContent = [],
      currentConversationId = JNull,
      localStorage = \<lparr>item = None, getItem_throws = None, setItem_throws = None\<rparr>,
      toasts = [], navigations = [], requests = [], console = [], now = 1700000000000\<rparr>"

text \<open>
  Two sessions on the conversation \<^verbatim>\<open>c1\<close>: one whose storage is full, so that writing to
  it throws, and one whose ledger holds a sticky error for \<^verbatim>\<open>c1\<close>.
\<close>

definition quota_session :: world where
  "quota_session =
     fresh_session\<lparr>currentConversationId := JStr ''c1'',
       localStorage := \<lparr>item = None, getItem_throws = None,
                         setItem_throws = Some ''QuotaExceededError''\<rparr>\<rparr>"

definition sticky_session :: world where
  "sticky_session =
     fresh_session\<lparr>currentConversationId := JStr ''c1'',
       localStorage :=
         \<lparr>item = Some (Ledger [(''c1'', \<lparr>StickyError.content = ''boom'', timestamp = 1699999999000\<rparr>)]),
          getItem_throws = None, setItem_throws = None\<rparr>\<rparr>"

section \<open>Lines and chunks\<close>

lemma split_nonempty: "split s \<noteq> []"
  by (induction s) (auto split: list.splits)

lemma split_no_lf: "CHR 0x0A \<notin> set s \<Longrightarrow> split s = [s]"
  by (induction s) auto

lemma last_split_no_lf: "CHR 0x0A \<notin> set (last (split s))"
  by (induction s) (auto split: list.splits simp: split_nonempty)

lemma split_append:
  "split (x @ r) = butlast (split x) @ split (last (split x) @ r)"
proof (induction x)
  case Nil
  show ?case by simp
next
  case (Cons c cs)
  show ?case
  proof (cases "c = CHR 0x0A")
    case True
    then show ?thesis using Cons.IH by (simp add: split_nonempty)
  next
    case False
    obtain l ls where sp: "split cs = l # ls"
      using split_nonempty[of cs] by (cases "split cs") auto
    show ?thesis
    proof (cases ls)
      case Nil
      with sp False Cons.IH show ?thesis by (simp split: list.splits)
    next
      case (Cons l2 ls2)
      with sp False Cons.IH show ?thesis by (simp split: list.splits)
    qed
  qed
qed

lemma butlast_split_append:
  "butlast (split (x @ r)) = butlast (split x) @ butlast (split (last (split x) @ r))"
  by (subst split_append) (simp add: butlast_append split_nonempty)

lemma read_loop_lines:
  "CHR 0x0A \<notin> set buffer \<Longrightarrow>
   read_loop P f buffer chunks s
     = foldl (process_line P f) s (butlast (split (buffer @ concat chunks)))"
proof (induction chunks arbitrary: buffer s)
  case Nil
  then show ?case by (simp add: split_no_lf)
next
  case (Cons chunk rest)
  have "read_loop P f buffer (chunk # rest) s
          = read_loop P f (last (split (buffer @ chunk))) rest
              (foldl (process_line P f) s (butlast (split (buffer @ chunk))))"
    by (simp add: Let_def)
  also have "\<dots> = foldl (process_line P f)
                     (foldl (process_line P f) s (butlast (split (buffer @ chunk))))
                     (butlast (split (last (split (buffer @ chunk)) @ concat rest)))"
    by (rule Cons.IH) (rule last_split_no_lf)
  also have "\<dots> = foldl (process_line P f) s (butlast (split ((buffer @ chunk) @ concat rest)))"
    by (simp only: butlast_split_append[of "buffer @ chunk"] foldl_append)
  finally show ?case by simp
qed

lemma split_reassemble:
  "concat (map (\<lambda>l. l @ [CHR 0x0A]) (butlast (split t))) @ last (split t) = t"
  by (induction t) (auto split: list.splits simp: split_nonempty)

lemma member_present: "member data name \<noteq> JUndefined \<longleftrightarrow> present name data"
  by (cases data) (auto simp: present_def split: option.splits)

lemma keys_empty: "data \<noteq> JNull \<Longrightarrow> data \<noteq> JUndefined \<Longrightarrow>
  Object_keys_length data = 0 \<longleftrightarrow> no_members data"
  by (cases data) auto

lemma dispatch_inferred:
  "dispatch f data s =
     (if data = JNull \<or> data = JUndefined then Thrown s
      else case inferred_kind data of None \<Rightarrow> Returned s | Some k \<Rightarrow> f (k, data) s)"
  by (simp add: dispatch_def inferred_kind_def member_present keys_empty)

lemma process_line_decoded:
  "process_line P f s line = (case decode_line P line of None \<Rightarrow> s | Some d \<Rightarrow> deliver f s d)"
  by (auto simp: process_line_def decode_line_def deliver_def dispatch_inferred
           split: option.splits)

lemma foldl_process_lines:
  "foldl (process_line P f) s ls = foldl (deliver f) s (List.map_filter (decode_line P) ls)"
  by (induction ls arbitrary: s) (simp_all add: List.map_filter_simps process_line_decoded split: option.splits)

lemma read_loop_decode:
  "read_loop P f [] chunks s = foldl (deliver f) s (decode P chunks)"
  by (simp add: read_loop_lines decode_def foldl_process_lines)

lemma decode_unsplit: "decode P chunks = decode P [concat chunks]"
  by (simp add: decode_def)

lemma split_line: "CHR 0x0A \<notin> set l \<Longrightarrow> split (l @ [CHR 0x0A]) = [l, []]"
  by (induction l) auto

section \<open>Facts about the store\<close>

lemma getStoredErrors_fields [simp]:
  "messages (snd (getStoredErrors w)) = messages w"
  "isLoading (snd (getStoredErrors w)) = isLoading w"
  "streamingContent (snd (getStoredErrors w)) = streamingContent w"
  "localStorage (snd (getStoredErrors w)) = localStorage w"
  "toasts (snd (getStoredErrors w)) = toasts w"
  "requests (snd (getStoredErrors w)) = requests w"
  "conversations (snd (getStoredErrors w)) = conversations w"
  "currentConversationId (snd (getStoredErrors w)) = currentConversationId w"
  "now (snd (getStoredErrors w)) = now w"
  "world.more (snd (getStoredErrors w)) = world.more w"
  by (simp_all add: getStoredErrors_def console_error_def split: option.splits stored.splits)

lemma getStoredErrors_cycle [simp]:
  "accumulatedContent (snd (getStoredErrors c)) = accumulatedContent c"
  "newConversationId (snd (getStoredErrors c)) = newConversationId c"
  by (simp_all add: getStoredErrors_def console_error_def split: option.splits stored.splits)

lemma get_after_remove:
  assumes "removeError conversationId w = Returned w'"
  shows "fst (getErrorForConversation conversationId w') = None"
proof -
  obtain errors w1 where g: "getStoredErrors w = (errors, w1)" by (cases "getStoredErrors w")
  then have w1: "localStorage w1 = localStorage w"
    using getStoredErrors_fields(4)[of w] by simp
  from assms g have ok: "setItem_throws (localStorage w) = None"
    and w': "w' = w1\<lparr>localStorage := (localStorage w1)\<lparr>item := Some (Ledger (AList.delete (ToString conversationId) errors))\<rparr>\<rparr>"
    by (auto simp: removeError_def setItem_def w1 split: option.splits)
  show ?thesis
    by (simp add: getErrorForConversation_def getStoredErrors_def w' delete_conv
             split: option.splits prod.splits)
qed

lemma get_after_store:
  assumes "storeError conversationId errorContent w = Returned w'"
    and "getItem_throws (localStorage w) = None" and "errorContent \<noteq> []"
    and "ToString conversationId \<noteq> ''__proto__''"
  shows "fst (getErrorForConversation conversationId w') = Some errorContent"
proof -
  obtain errors w1 where g: "getStoredErrors w = (errors, w1)" by (cases "getStoredErrors w")
  then have w1: "localStorage w1 = localStorage w"
    using getStoredErrors_fields(4)[of w] by simp
  from assms g have ok: "setItem_throws (localStorage w) = None"
    and w': "w' = w1\<lparr>localStorage := (localStorage w1)\<lparr>item := Some (Ledger (AList.update (ToString conversationId) \<lparr>StickyError.content = errorContent, timestamp = now w1\<rparr> errors))\<rparr>\<rparr>"
    by (auto simp: storeError_def setItem_def assign_def w1 split: option.splits)
  show ?thesis using assms(2,3)
    by (simp add: getErrorForConversation_def getStoredErrors_def w' w1 update_conv
             split: option.splits prod.splits)
qed

section \<open>Events that do not end a cycle\<close>

lemma onEvent_nonterminal:
  assumes "fst e \<noteq> Done" and "fst e \<noteq> Error"
  shows "\<exists>c'. onEvent L e c = Returned c' \<and> isLoading c' = isLoading c \<and>
           messages c' = messages c \<and> localStorage c' = localStorage c \<and>
           toasts c' = toasts c \<and> requests c' = requests c"
proof -
  obtain k d where e: "e = (k, d)" by (cases e)
  with assms show ?thesis
    by (cases k) (simp_all add: onEvent_def Let_def)
qed

lemma deliver_nonterminal:
  assumes "\<forall>e \<in> set (events [d]). fst e \<noteq> Done \<and> fst e \<noteq> Error"
  shows "isLoading (deliver (onEvent L) c d) = isLoading c \<and>
         messages (deliver (onEvent L) c d) = messages c \<and>
         localStorage (deliver (onEvent L) c d) = localStorage c \<and>
         toasts (deliver (onEvent L) c d) = toasts c \<and>
         requests (deliver (onEvent L) c d) = requests c"
proof (cases d)
  case (Delivered e)
  with assms have "fst e \<noteq> Done" "fst e \<noteq> Error" by simp_all
  from onEvent_nonterminal[OF this, of L c] Delivered show ?thesis
    by (auto simp: deliver_def)
next
  case Diagnostic
  then show ?thesis by (simp add: deliver_def console_error_def)
qed

lemma run_nonterminal:
  assumes "\<forall>e \<in> set (events ds). fst e \<noteq> Done \<and> fst e \<noteq> Error"
  shows "isLoading (foldl (deliver (onEvent L)) c ds) = isLoading c \<and>
         messages (foldl (deliver (onEvent L)) c ds) = messages c \<and>
         localStorage (foldl (deliver (onEvent L)) c ds) = localStorage c \<and>
         toasts (foldl (deliver (onEvent L)) c ds) = toasts c \<and>
         requests (foldl (deliver (onEvent L)) c ds) = requests c"
  using assms
proof (induction ds arbitrary: c)
  case Nil
  show ?case by simp
next
  case (Cons d ds)
  have hd: "\<forall>e \<in> set (events [d]). fst e \<noteq> Done \<and> fst e \<noteq> Error"
    using Cons.prems by (cases d) auto
  have tl: "\<forall>e \<in> set (events ds). fst e \<noteq> Done \<and> fst e \<noteq> Error"
    using Cons.prems by (cases d) auto
  show ?case
    using Cons.IH[OF tl, of "deliver (onEvent L) c d"] deliver_nonterminal[OF hd, of L c]
    by simp
qed

lemma sendMessage_stream:
  assumes "\<not> isLoading r" and "getItem_throws (localStorage w) = None"
  shows "sendMessage P L r input (Stream chunks None) w
           = world.truncate (awaiting P L r input chunks w)"
  using assms
  by (simp add: sendMessage_def chatApi_sendMessage_def awaiting_def Let_def world.defs cycle.defs)

lemma awaiting_decode:
  "awaiting P L r input chunks w =
     foldl (deliver (onEvent L))
       (world.extend
          (w\<lparr>messages := messages w @ [\<lparr>role = user, content = input\<rparr>],
             isLoading := True, streamingContent := [],
             requests := requests w @
               [(input, if truthy (currentConversationId r) then currentConversationId r
                        else JNull)]\<rparr>)
          (cycle.fields (currentConversationId r) []))
       (decode P chunks)"
  by (simp add: awaiting_def read_loop_decode)


lemma truncate_fields [simp]:
  "isLoading (world.truncate c) = isLoading c"
  "messages (world.truncate c) = messages c"
  "localStorage (world.truncate c) = localStorage c"
  "toasts (world.truncate c) = toasts c"
  "requests (world.truncate c) = requests c"
  "streamingContent (world.truncate c) = streamingContent c"
  "conversations (world.truncate c) = conversations c"
  "currentConversationId (world.truncate c) = currentConversationId c"
  by (simp_all add: world.defs)


section \<open>Facts about the list of conversations\<close>

lemma sync_exists:
  "list_ex (\<lambda>c. id' c = i) prev \<Longrightarrow>
   syncConversations i t prev = map (\<lambda>c. if id' c = i then c\<lparr>title := t\<rparr> else c) prev"
  by (simp add: syncConversations_def)

lemma sync_fresh:
  "\<not> list_ex (\<lambda>c. id' c = i) prev \<Longrightarrow>
   syncConversations i t prev = \<lparr>id' = i, title = t\<rparr> # prev"
  by (simp add: syncConversations_def)

lemma retitle_ids:
  "map id' (map (\<lambda>c. if id' c = i then c\<lparr>title := t\<rparr> else c) prev) = map id' prev"
  by (induction prev) auto

lemma retitle_twice:
  "map (\<lambda>c. if id' c = i then c\<lparr>title := t\<rparr> else c)
     (map (\<lambda>c. if id' c = i then c\<lparr>title := t\<rparr> else c) prev)
   = map (\<lambda>c. if id' c = i then c\<lparr>title := t\<rparr> else c) prev"
  by (induction prev) auto

lemma retitle_absent:
  "\<not> list_ex (\<lambda>c. id' c = i) prev \<Longrightarrow>
   map (\<lambda>c. if id' c = i then c\<lparr>title := t\<rparr> else c) prev = prev"
  by (induction prev) auto

lemma sync_map_ids:
  "map id' (syncConversations i t prev)
     = (if list_ex (\<lambda>c. id' c = i) prev then map id' prev else i # map id' prev)"
  by (simp add: sync_exists sync_fresh retitle_ids)

lemma list_ex_ids: "list_ex (\<lambda>c. id' c = i) prev \<longleftrightarrow> i \<in> set (map id' prev)"
  by (induction prev) auto

lemma sync_ids: "id' ` set (syncConversations i t prev) = insert i (id' ` set prev)"
proof -
  have "set (map id' (syncConversations i t prev)) = insert i (set (map id' prev))"
    unfolding sync_map_ids list_ex_ids by auto
  then show ?thesis by simp
qed

lemma sync_present: "list_ex (\<lambda>c. id' c = i) (syncConversations i t prev)"
  unfolding list_ex_ids sync_map_ids by simp

lemma sync_idem: "syncConversations i t (syncConversations i t prev) = syncConversations i t prev"
proof -
  let ?f = "\<lambda>c. if id' c = i then c\<lparr>title := t\<rparr> else c"
  have step: "syncConversations i t (syncConversations i t prev) = map ?f (syncConversations i t prev)"
    by (rule sync_exists) (rule sync_present)
  show ?thesis
  proof (cases "list_ex (\<lambda>c. id' c = i) prev")
    case True
    then have "syncConversations i t prev = map ?f prev" by (rule sync_exists)
    then show ?thesis unfolding step by (simp only: retitle_twice)
  next
    case False
    then have "syncConversations i t prev = \<lparr>id' = i, title = t\<rparr> # prev" by (rule sync_fresh)
    then show ?thesis unfolding step using retitle_absent[OF False, of t] by simp
  qed
qed

lemma sync_length:
  "length (syncConversations i t prev) = (if i \<in> id' ` set prev then length prev else Suc (length prev))"
  by (simp add: sync_exists sync_fresh list_ex_ids)

lemma sync_fold_length:
  "length (fold (\<lambda>(i, t). syncConversations i t) calls prev)
     = length prev + card (fst ` set calls - id' ` set prev)"
proof (induction calls arbitrary: prev)
  case Nil
  then show ?case by simp
next
  case (Cons p calls)
  obtain i t where p: "p = (i, t)" by (cases p)
  let ?A = "fst ` set calls" and ?I = "id' ` set prev"
  have fin: "finite (?A - ?I)" "finite (?A - insert i ?I)" by auto
  show ?case
  proof (cases "i \<in> ?I")
    case True
    then have "insert i ?A - ?I = ?A - insert i ?I" "insert i ?I = ?I" by auto
    with True show ?thesis using Cons.IH[of "syncConversations i t prev"]
      by (simp add: p sync_ids sync_length)
  next
    case False
    then have "insert i ?A - ?I = insert i (?A - insert i ?I)" by auto
    then have "card (insert i ?A - ?I) = Suc (card (?A - insert i ?I))"
      using fin by simp
    with False show ?thesis using Cons.IH[of "syncConversations i t prev"]
      by (simp add: p sync_ids sync_length)
  qed
qed

lemma sync_funpow: "(syncConversations i t ^^ Suc n) prev = syncConversations i t prev"
proof (induction n)
  case 0
  show ?case by simp
next
  case (Suc n)
  have "(syncConversations i t ^^ Suc (Suc n)) prev
          = syncConversations i t ((syncConversations i t ^^ Suc n) prev)"
    by (simp only: funpow.simps o_apply)
  then show ?case by (simp only: Suc.IH sync_idem)
qed

section \<open>Facts about the handlers\<close>

lemma removeError_cases:
  "removeError i c =
     (case setItem_throws (localStorage c) of
        Some m \<Rightarrow> Thrown (snd (getStoredErrors c))
      | None \<Rightarrow>
          Returned ((snd (getStoredErrors c))
            \<lparr>localStorage := (localStorage c)
               \<lparr>item := Some (Ledger (AList.delete (ToString i) (fst (getStoredErrors c))))\<rparr>\<rparr>))"
  by (simp add: removeError_def setItem_def case_prod_beta split: option.splits)

lemma storeError_cases:
  "storeError i m c =
     (case setItem_throws (localStorage c) of
        Some m0 \<Rightarrow> Thrown (snd (getStoredErrors c))
      | None \<Rightarrow>
          Returned ((snd (getStoredErrors c))
            \<lparr>localStorage := (localStorage c)
               \<lparr>item := Some (Ledger (assign (ToString i)
                    \<lparr>StickyError.content = m, timestamp = now c\<rparr> (fst (getStoredErrors c))))\<rparr>\<rparr>))"
  by (simp add: storeError_def setItem_def case_prod_beta split: option.splits)

lemma fst_getStoredErrors:
  "fst (getStoredErrors w) =
     (case getItem_throws (localStorage w) of
        Some m \<Rightarrow> []
      | None \<Rightarrow> (case item (localStorage w) of Some (Ledger errors) \<Rightarrow> errors | _ \<Rightarrow> []))"
  by (simp add: getStoredErrors_def split: option.splits stored.splits)

lemma fst_getErrorForConversation:
  "fst (getErrorForConversation i w) =
     (case map_of (fst (getStoredErrors w)) (ToString i) of
        None \<Rightarrow> None
      | Some e \<Rightarrow> if StickyError.content e = [] then None else Some (StickyError.content e))"
  by (simp add: getErrorForConversation_def case_prod_beta split: option.splits)

lemma get_depends_on_storage:
  assumes "localStorage w' = localStorage w"
  shows "fst (getErrorForConversation i w') = fst (getErrorForConversation i w)"
  unfolding fst_getErrorForConversation fst_getStoredErrors assms by (rule refl)

lemma onEvent_Done:
  "onEvent L (Done, d) c =
     (if accumulatedContent c \<noteq> [] then
        (case (if truthy (newConversationId c)
               then removeError (newConversationId c)
                      (c\<lparr>messages := messages c @
                           [\<lparr>role = model, content = accumulatedContent c\<rparr>]\<rparr>)
               else Returned (c\<lparr>messages := messages c @
                           [\<lparr>role = model, content = accumulatedContent c\<rparr>]\<rparr>)) of
           Thrown c2 \<Rightarrow> Thrown c2
         | Returned c2 \<Rightarrow> Returned (c2\<lparr>streamingContent := [], isLoading := False\<rparr>))
      else Returned (c\<lparr>streamingContent := [], isLoading := False\<rparr>))"
  by (simp add: onEvent_def Let_def)

lemma classified_inline:
  "(if includes_str (L text) ''credit'' \<or> includes_str (L text) ''limit'' \<or>
       includes_str (L text) ''quota'' \<or> includes_str (L text) ''rate limit''
    then banner @ text else text) = classified L text"
  by (simp add: classified_def quota_terms_def)

lemma onEvent_Error_raw:
  "onEvent L (Error, d) c =
     (case (if truthy (member d ''message'') then member d ''message''
            else JStr ''An error occurred'') of
        JStr errorMessage \<Rightarrow>
          (case (if truthy (newConversationId c)
                 then storeError (newConversationId c) (classified L errorMessage) c
                 else Returned c) of
             Thrown c1 \<Rightarrow> Thrown c1
           | Returned c1 \<Rightarrow>
               Returned (c1\<lparr>messages := messages c1 @
                             [\<lparr>role = error, content = classified L errorMessage\<rparr>],
                           streamingContent := [], isLoading := False\<rparr>))
      | _ \<Rightarrow> Thrown c)"
  unfolding onEvent_def Let_def classified_inline by simp

lemma onEvent_Error:
  assumes "member d ''message'' = JStr m"
  shows "onEvent L (Error, d) c =
     (case (if truthy (newConversationId c)
            then storeError (newConversationId c)
                   (classified L (if m = [] then ''An error occurred'' else m)) c
            else Returned c) of
        Thrown c1 \<Rightarrow> Thrown c1
      | Returned c1 \<Rightarrow>
          Returned (c1\<lparr>messages := messages c1 @
                        [\<lparr>role = error,
                          content = classified L (if m = [] then ''An error occurred'' else m)\<rparr>],
                      streamingContent := [], isLoading := False\<rparr>))"
proof -
  have v: "(if truthy (member d ''message'') then member d ''message''
            else JStr ''An error occurred'') = JStr (if m = [] then ''An error occurred'' else m)"
    using assms by simp
  show ?thesis unfolding onEvent_Error_raw v json.case by (rule refl)
qed

lemma onEvent_acc:
  "accumulatedContent (case onEvent L e c of Returned x \<Rightarrow> x | Thrown x \<Rightarrow> x) =
     accumulatedContent c @ (if fst e = Delta then ToString (member (snd e) ''content'') else [])"
proof -
  obtain k d where e: "e = (k, d)" by (cases e)
  show ?thesis
  proof (cases k)
    case Done
    show ?thesis
      unfolding e Done onEvent_Done removeError_cases
      by (simp split: option.splits)
  next
    case Error
    define v where "v = (if truthy (member d ''message'') then member d ''message''
            else JStr ''An error occurred'')"
    have "accumulatedContent (case onEvent L (Error, d) c of Returned x \<Rightarrow> x | Thrown x \<Rightarrow> x)
            = accumulatedContent c"
      unfolding onEvent_Error_raw v_def[symmetric] storeError_cases
      by (cases v) (simp_all split: option.splits)
    then show ?thesis unfolding e Error by simp
  qed (simp_all add: e onEvent_def Let_def)
qed

lemma deliver_acc:
  "accumulatedContent (deliver (onEvent L) c d) =
     accumulatedContent c @
       concat (map (\<lambda>e. ToString (member (snd e) ''content''))
                 (filter (\<lambda>e. fst e = Delta) (events [d])))"
proof (cases d)
  case (Delivered e)
  show ?thesis using onEvent_acc[of L e c]
    by (simp add: Delivered deliver_def console_error_def split: outcome.splits)
next
  case Diagnostic
  then show ?thesis by (simp add: deliver_def console_error_def)
qed

lemma events_Cons: "events (d # ds) = events [d] @ events ds"
  by (cases d) simp_all

lemma run_acc:
  "accumulatedContent (foldl (deliver (onEvent L)) c ds) =
     accumulatedContent c @
       concat (map (\<lambda>e. ToString (member (snd e) ''content''))
                 (filter (\<lambda>e. fst e = Delta) (events ds)))"
proof (induction ds arbitrary: c)
  case Nil
  show ?case by simp
next
  case (Cons d ds)
  show ?case
    by (simp only: foldl_Cons Cons.IH deliver_acc events_Cons[of d ds] filter_append
          map_append concat_append append_assoc)
qed

lemma done_commits:
  assumes "\<not> truthy (newConversationId c) \<or> setItem_throws (localStorage c) = None"
  shows "\<exists>c'. onEvent L (Done, d) c = Returned c' \<and>
           messages c' = messages c @
             (if accumulatedContent c = [] then []
              else [\<lparr>role = model, content = accumulatedContent c\<rparr>]) \<and>
           streamingContent c' = [] \<and> \<not> isLoading c'"
  using assms unfolding onEvent_Done removeError_cases by auto


lemma classified_nonempty: "text \<noteq> [] \<Longrightarrow> classified L text \<noteq> []"
  by (simp add: classified_def)

text \<open>
  A cycle whose store accepts writes, and whose stream delivers events that are neither
  \<^verbatim>\<open>done\<close> nor \<^verbatim>\<open>error\<close> and then \<^verbatim>\<open>done\<close>: the transcript gains the user's message
  and, unless it is empty, one \<^verbatim>\<open>model\<close> message holding the contents of the \<^verbatim>\<open>delta\<close>
  events in the order of their arrival; the streaming buffer is empty afterwards.
\<close>

lemma cycle_commits_concatenation:
  assumes "\<not> isLoading r" and "getItem_throws (localStorage w) = None"
    and "setItem_throws (localStorage w) = None"
    and "decode P chunks = ds @ [Delivered (Done, d)]"
    and "\<forall>e \<in> set (events ds). fst e \<noteq> Done \<and> fst e \<noteq> Error"
  shows "messages (sendMessage P L r input (Stream chunks None) w) =
           messages w @ [\<lparr>role = user, content = input\<rparr>] @
             (if concat (map (\<lambda>e. ToString (member (snd e) ''content''))
                          (filter (\<lambda>e. fst e = Delta) (events ds))) = [] then []
              else [\<lparr>role = model,
                      content = concat (map (\<lambda>e. ToString (member (snd e) ''content''))
                                          (filter (\<lambda>e. fst e = Delta) (events ds)))\<rparr>]) \<and>
         streamingContent (sendMessage P L r input (Stream chunks None) w) = [] \<and>
         \<not> isLoading (sendMessage P L r input (Stream chunks None) w)"
proof -
  define c0 :: cycle where "c0 = world.extend
          (w\<lparr>messages := messages w @ [\<lparr>role = user, content = input\<rparr>],
             isLoading := True, streamingContent := [],
             requests := requests w @
               [(input, if truthy (currentConversationId r) then currentConversationId r
                        else JNull)]\<rparr>)
          (cycle.fields (currentConversationId r) [])"
  define c1 where "c1 = foldl (deliver (onEvent L)) c0 ds"
  have c0: "messages c0 = messages w @ [\<lparr>role = user, content = input\<rparr>]"
    "localStorage c0 = localStorage w" "accumulatedContent c0 = []"
    by (simp_all add: c0_def world.defs cycle.defs)
  have c1: "messages c1 = messages c0" "localStorage c1 = localStorage c0"
    using run_nonterminal[OF assms(5), of L c0] by (simp_all add: c1_def)
  have acc: "accumulatedContent c1 =
      concat (map (\<lambda>e. ToString (member (snd e) ''content''))
                (filter (\<lambda>e. fst e = Delta) (events ds)))"
    using run_acc[of L c0 ds] by (simp add: c1_def c0)
  have ok: "\<not> truthy (newConversationId c1) \<or> setItem_throws (localStorage c1) = None"
    using assms(3) by (simp add: c1 c0)
  obtain c' where ev: "onEvent L (Done, d) c1 = Returned c'"
    and m: "messages c' = messages c1 @
             (if accumulatedContent c1 = [] then []
              else [\<lparr>role = model, content = accumulatedContent c1\<rparr>])"
    and s: "streamingContent c' = []" and l: "\<not> isLoading c'"
    using done_commits[OF ok, of L d] by blast
  have "awaiting P L r input chunks w = foldl (deliver (onEvent L)) c0 (ds @ [Delivered (Done, d)])"
    by (simp only: awaiting_decode c0_def assms(4))
  then have aw: "awaiting P L r input chunks w = c'"
    by (simp add: c1_def[symmetric] deliver_def ev)
  have eq: "sendMessage P L r input (Stream chunks None) w = world.truncate c'"
    using sendMessage_stream[OF assms(1,2), of P L input chunks] by (simp only: aw)
  show ?thesis
    by (simp add: eq m s l c1 c0 acc)
qed

lemma split_lf_free_cons: "CHR 0x0A \<notin> set l \<Longrightarrow> split (l @ CHR 0x0A # r) = l # split r"
  by (induction l) auto

lemma split_lines_tail:
  assumes "\<forall>l \<in> set ls. CHR 0x0A \<notin> set l" and "CHR 0x0A \<notin> set tail"
  shows "split (concat (map (\<lambda>l. l @ LF) ls) @ tail) = ls @ [tail]"
  using assms
  by (induction ls) (simp_all add: split_no_lf split_lf_free_cons LF_def)


section \<open>A cycle, run\<close>

text \<open>
  The first send of a fresh session. The body arrives in two chunks that cut a record in
  two; it announces the new conversation \<^verbatim>\<open>c1\<close>, streams \<^verbatim>\<open>Hel\<close> and \<^verbatim>\<open>lo\<close>, holds a
  \<^verbatim>\<open>null\<close> record, which is logged, titles the conversation and is done. Removing the
  sticky error of \<^verbatim>\<open>c1\<close> leaves an empty ledger in the storage.
\<close>

lemma first_cycle:
  \<open>sendMessage JSON_parse_sample toLowerCase_ascii fresh_session ''hello''
     (Stream [''event: conversation'' @ LF @
              ''data: {"conversation_id": "c1", "is_new": true}'' @ LF @ LF @
              ''data: {"content": "Hel"}'' @ LF @ ''data: {"con'',
              ''tent": "lo"}'' @ LF @ ''data: null'' @ LF @
              ''data: {"title": "Greeting"}'' @ LF @ ''data: {}'' @ LF] None)
     fresh_session
   = fresh_session
       \<lparr>conversations := [\<lparr>id' = JStr ''c1'', title = JStr ''Greeting''\<rparr>],
        messages := [\<lparr>role = user, content = ''hello''\<rparr>,
                     \<lparr>role = model, content = ''Hello''\<rparr>],
        currentConversationId := JStr ''c1'',
        localStorage := \<lparr>item = Some (Ledger []), getItem_throws = None,
                          setItem_throws = None\<rparr>,
        navigations := [''/chat/c1''],
        requests := [(''hello'', JNull)],
        console := [''Failed to parse SSE data:'']\<rparr>\<close>
  by code_simp

text \<open>
  The key \<^verbatim>\<open>__proto__\<close>: the write stores no entry, and the read gives \<^verbatim>\<open>null\<close>.
\<close>

lemma storeError_proto:
  \<open>storeError (JStr ''__proto__'') ''boom'' fresh_session
     = Returned (fresh_session\<lparr>localStorage :=
                  (localStorage fresh_session)\<lparr>item := Some (Ledger [])\<rparr>\<rparr>) \<and>
   getErrorForConversation (JStr ''__proto__'')
       (fresh_session\<lparr>localStorage := (localStorage fresh_session)\<lparr>item := Some (Ledger [])\<rparr>\<rparr>)
     = (None, fresh_session\<lparr>localStorage :=
                (localStorage fresh_session)\<lparr>item := Some (Ledger [])\<rparr>\<rparr>)\<close>
  by code_simp

section \<open>The claims\<close>

text \<open>
  Claim C1, at an input where the code does not do what the claim says. The session is
  on \<^verbatim>\<open>c1\<close>, its storage is full, and the stream delivers a \<^verbatim>\<open>delta\<close> with content
  \<^verbatim>\<open>hi\<close> and then \<^verbatim>\<open>done\<close>. The \<^verbatim>\<open>model\<close> message \<^verbatim>\<open>hi\<close> is committed, but
  \<^verbatim>\<open>removeError\<close> throws out of the callback before the buffer is cleared: the streaming
  buffer still holds \<^verbatim>\<open>hi\<close> and the session is still loading. (With a store that
  accepts writes the claim holds: \<open>cycle_commits_concatenation\<close>.)
\<close>

theorem done_handler_aborted_by_store_failure:
  \<open>sendMessage JSON_parse_sample toLowerCase_ascii quota_session ''hello''
       (Stream [''data: {"content": "hi"}'' @ LF @ ''data: {}'' @ LF] None) quota_session
     = quota_session\<lparr>messages := [\<lparr>role = user, content = ''hello''\<rparr>,
                                   \<lparr>role = model, content = ''hi''\<rparr>],
         isLoading := True, streamingContent := ''hi'',
         requests := [(''hello'', JStr ''c1'')],
         console := [''Failed to parse SSE data:'']\<rparr>\<close>
  by code_simp

text \<open>
  Claim C2, as the code has it. When a \<^verbatim>\<open>done\<close> event arrives and the store's write does
  not throw: if the accumulated content is not empty and the cycle's conversation id is
  one (not \<^verbatim>\<open>null\<close>, not empty), the Sticky Error Store entry for that conversation
  is removed, so that reading it afterwards gives nothing; otherwise the store is left as
  it was. In both cases the session is no longer loading and the streaming buffer is
  empty.
\<close>

theorem done_clears_sticky_error:
  assumes "setItem_throws (localStorage c) = None"
  shows "case onEvent toLowerCase (Done, d) c of
           Thrown c' \<Rightarrow> False
         | Returned c' \<Rightarrow>
             (if accumulatedContent c \<noteq> [] \<and> truthy (newConversationId c)
              then fst (getErrorForConversation (newConversationId c) c') = None
              else localStorage c' = localStorage c) \<and>
             \<not> isLoading c' \<and> streamingContent c' = []"
proof (cases "accumulatedContent c \<noteq> [] \<and> truthy (newConversationId c)")
  case True
  let ?c1 = "c\<lparr>messages := messages c @ [\<lparr>role = model, content = accumulatedContent c\<rparr>]\<rparr>"
  have ok: "setItem_throws (localStorage ?c1) = None" using assms by simp
  obtain c2 where r: "removeError (newConversationId c) ?c1 = Returned c2"
    using ok by (simp add: removeError_cases)
  have g: "fst (getErrorForConversation (newConversationId c) c2) = None"
    using r by (rule get_after_remove)
  have ev: "onEvent toLowerCase (Done, d) c
              = Returned (c2\<lparr>streamingContent := [], isLoading := False\<rparr>)"
    using True r by (simp add: onEvent_Done)
  have "fst (getErrorForConversation (newConversationId c)
               (c2\<lparr>streamingContent := [], isLoading := False\<rparr>)) = None"
    using g get_depends_on_storage[of "c2\<lparr>streamingContent := [], isLoading := False\<rparr>" c2]
    by simp
  then show ?thesis using True by (simp add: ev)
next
  case False
  then show ?thesis by (auto simp: onEvent_Done)
qed

text \<open>
  An instance: the session on \<^verbatim>\<open>c1\<close> with the sticky error \<^verbatim>\<open>boom\<close>, a cycle that has
  accumulated \<^verbatim>\<open>Hello\<close>, and then \<^verbatim>\<open>done\<close>.
\<close>

theorem done_clears_sticky_error_witness:
  "setItem_throws (localStorage
      (world.extend sticky_session (cycle.fields (JStr ''c1'') ''Hello''))) = None \<and>
   fst (getErrorForConversation (JStr ''c1'') sticky_session) = Some ''boom'' \<and>
   (case onEvent toLowerCase_ascii (Done, JObj [])
           (world.extend sticky_session (cycle.fields (JStr ''c1'') ''Hello'')) of
      Thrown c' \<Rightarrow> False
    | Returned c' \<Rightarrow>
        fst (getErrorForConversation (JStr ''c1'') c') = None \<and>
        messages c' = [\<lparr>role = model, content = ''Hello''\<rparr>] \<and>
        item (localStorage c') = Some (Ledger []))"
proof -
  have ok: "setItem_throws (localStorage
      (world.extend sticky_session (cycle.fields (JStr ''c1'') ''Hello''))) = None"
    by (simp add: sticky_session_def fresh_session_def world.defs cycle.defs)
  show ?thesis
    using done_clears_sticky_error[OF ok, of toLowerCase_ascii "JObj []"]
    by (simp add: onEvent_def removeError_def getErrorForConversation_def getStoredErrors_def
          setItem_def sticky_session_def fresh_session_def world.defs cycle.defs Let_def)
qed

text \<open>
  Claim C2 as the specification states it (the entry is cleared whatever was streamed)
  fails on a cycle that streams nothing: the reply is \<^verbatim>\<open>done\<close> alone, the cycle ends
  successfully, and the sticky error of \<^verbatim>\<open>c1\<close> is still there.
\<close>

theorem done_without_content_keeps_sticky_error:
  \<open>fst (getErrorForConversation (JStr ''c1'') sticky_session) = Some ''boom'' \<and>
   sendMessage JSON_parse_sample toLowerCase_ascii sticky_session ''hello''
       (Stream [''data: {}'' @ LF] None) sticky_session
     = sticky_session\<lparr>messages := [\<lparr>role = user, content = ''hello''\<rparr>],
         requests := [(''hello'', JStr ''c1'')]\<rparr> \<and>
   fst (getErrorForConversation (JStr ''c1'')
          (sendMessage JSON_parse_sample toLowerCase_ascii sticky_session ''hello''
             (Stream [''data: {}'' @ LF] None) sticky_session)) = Some ''boom''\<close>
  by (simp add: sendMessage_def chatApi_sendMessage_def process_line_def startsWith_def
        dispatch_def onEvent_def JSON_parse_sample_def LF_def sticky_session_def
        fresh_session_def getErrorForConversation_def getStoredErrors_def
        world.defs cycle.defs Let_def)



text \<open>
  Claim C4, at an input where the code does not do what the claim says. The guard of
  \<^verbatim>\<open>sendMessage\<close> reads the \<^verbatim>\<open>isLoading\<close> that the render of the callback saw, not the
  state. Two sends through the callback of one render of a fresh session: the first has
  set the state to loading and awaits its response; the second is not dropped. It
  appends its message and issues a second request: two cycles are in flight.
\<close>

theorem second_send_on_one_render_is_not_dropped:
  \<open>world.truncate
      (awaiting JSON_parse_sample toLowerCase_ascii fresh_session ''first'' [] fresh_session)
     = fresh_session\<lparr>messages := [\<lparr>role = user, content = ''first''\<rparr>], isLoading := True,
         requests := [(''first'', JNull)]\<rparr> \<and>
   sendMessage JSON_parse_sample toLowerCase_ascii fresh_session ''second'' (Stream [] None)
      (world.truncate
         (awaiting JSON_parse_sample toLowerCase_ascii fresh_session ''first'' [] fresh_session))
     = fresh_session\<lparr>messages := [\<lparr>role = user, content = ''first''\<rparr>,
                                   \<lparr>role = user, content = ''second''\<rparr>],
         isLoading := True,
         requests := [(''first'', JNull), (''second'', JNull)]\<rparr>\<close>
  by code_simp

text \<open>
  Claim C5, as the code has it. For a \<^verbatim>\<open>data:\<close> line whose text parses to \<open>data\<close>, the
  decoder hands the callback the event that the policy gives in this order: a
  conversation id, else a content, else a title, else a message, else a payload without
  members of its own as \<^verbatim>\<open>done\<close>; that last case is the empty object and also a number,
  a boolean, the empty string and the empty array. For any other payload it calls
  nothing; whatever the callback throws is caught. A record of no known shape does not
  end the loop: the chunks after it are read as if it had not been there (a \<^verbatim>\<open>null\<close>
  payload leaves a line in the log).
\<close>

theorem decoder_type_inference:
  assumes "JSON_parse txt = Some data"
  shows "process_line JSON_parse callback s (''data: '' @ txt) =
           (case inferred_kind data of
              Some k \<Rightarrow>
                (case callback (k, data) s of
                   Returned s1 \<Rightarrow> s1
                 | Thrown s1 \<Rightarrow> console_error ''Failed to parse SSE data:'' s1)
            | None \<Rightarrow>
                if data = JNull \<or> data = JUndefined
                then console_error ''Failed to parse SSE data:'' s else s) \<and>
         (inferred_kind data = None \<and> CHR 0x0A \<notin> set txt \<longrightarrow>
            read_loop JSON_parse callback [] ((''data: '' @ txt @ LF) # rest) s =
              read_loop JSON_parse callback [] rest
                (if data = JNull \<or> data = JUndefined
                 then console_error ''Failed to parse SSE data:'' s else s))"
proof -
  have null: "inferred_kind JNull = None" "inferred_kind JUndefined = None"
    by (simp_all add: inferred_kind_def present_def)
  have line: "process_line JSON_parse callback s (''data: '' @ txt) =
           (case inferred_kind data of
              Some k \<Rightarrow>
                (case callback (k, data) s of
                   Returned s1 \<Rightarrow> s1
                 | Thrown s1 \<Rightarrow> console_error ''Failed to parse SSE data:'' s1)
            | None \<Rightarrow>
                if data = JNull \<or> data = JUndefined
                then console_error ''Failed to parse SSE data:'' s else s)"
    using assms null
    by (auto simp: process_line_def startsWith_def dispatch_inferred split: option.splits)
  have loop: "read_loop JSON_parse callback [] ((''data: '' @ txt @ LF) # rest) s =
              read_loop JSON_parse callback [] rest
                (if data = JNull \<or> data = JUndefined
                 then console_error ''Failed to parse SSE data:'' s else s)"
    if none: "inferred_kind data = None" and nolf: "CHR 0x0A \<notin> set txt"
  proof -
    have "CHR 0x0A \<notin> set (''data: '' @ txt)" using nolf by simp
    then have sp: "split ((''data: '' @ txt) @ LF) = [''data: '' @ txt, []]"
      unfolding LF_def by (rule split_line)
    show ?thesis using sp line none by (simp add: Let_def del: split.simps)
  qed
  show ?thesis using line loop by blast
qed

text \<open>
  An instance: a record with an unknown member is skipped and the \<^verbatim>\<open>delta\<close> after it
  is delivered.
\<close>

theorem decoder_type_inference_witness:
  \<open>JSON_parse_sample ''{"foo": 1}'' = Some (JObj [(''foo'', JNum ''1'')]) \<and>
   inferred_kind (JObj [(''foo'', JNum ''1'')]) = None \<and>
   process_line JSON_parse_sample (onEvent toLowerCase_ascii)
       (world.extend fresh_session (cycle.fields JNull [])) (''data: '' @ ''{"foo": 1}'')
     = world.extend fresh_session (cycle.fields JNull []) \<and>
   read_loop JSON_parse_sample (onEvent toLowerCase_ascii) []
       [''data: '' @ ''{"foo": 1}'' @ LF, ''data: {"content": "hi"}'' @ LF]
       (world.extend fresh_session (cycle.fields JNull []))
     = read_loop JSON_parse_sample (onEvent toLowerCase_ascii) []
       [''data: {"content": "hi"}'' @ LF]
       (world.extend fresh_session (cycle.fields JNull [])) \<and>
   JSON_parse_sample ''{"content": "hi"}'' = Some (JObj [(''content'', JStr ''hi'')]) \<and>
   inferred_kind (JObj [(''content'', JStr ''hi'')]) = Some Delta \<and>
   streamingContent
     (process_line JSON_parse_sample (onEvent toLowerCase_ascii)
        (world.extend fresh_session (cycle.fields JNull [])) (''data: '' @ ''{"content": "hi"}''))
     = ''hi''\<close>
proof -
  have p1: \<open>JSON_parse_sample ''{"foo": 1}'' = Some (JObj [(''foo'', JNum ''1'')])\<close>
    by (simp add: JSON_parse_sample_def)
  have p2: \<open>JSON_parse_sample ''{"content": "hi"}'' = Some (JObj [(''content'', JStr ''hi'')])\<close>
    by (simp add: JSON_parse_sample_def)
  have k1: "inferred_kind (JObj [(''foo'', JNum ''1'')]) = None"
    by (simp add: inferred_kind_def present_def)
  have k2: "inferred_kind (JObj [(''content'', JStr ''hi'')]) = Some Delta"
    by (simp add: inferred_kind_def present_def)
  have nolf: \<open>CHR 0x0A \<notin> set ''{"foo": 1}''\<close> by simp
  note t1 = decoder_type_inference[of JSON_parse_sample \<open>''{"foo": 1}''\<close>
      "JObj [(''foo'', JNum ''1'')]" "onEvent toLowerCase_ascii"
      "world.extend fresh_session (cycle.fields JNull [])"
      \<open>[''data: {"content": "hi"}'' @ LF]\<close>, OF p1]
  note t2 = decoder_type_inference[of JSON_parse_sample \<open>''{"content": "hi"}''\<close>
      "JObj [(''content'', JStr ''hi'')]" "onEvent toLowerCase_ascii"
      "world.extend fresh_session (cycle.fields JNull [])" "[]", OF p2]
  have a: \<open>process_line JSON_parse_sample (onEvent toLowerCase_ascii)
       (world.extend fresh_session (cycle.fields JNull [])) (''data: '' @ ''{"foo": 1}'')
     = world.extend fresh_session (cycle.fields JNull [])\<close>
    using t1 k1 by simp
  have b: \<open>read_loop JSON_parse_sample (onEvent toLowerCase_ascii) []
       [''data: '' @ ''{"foo": 1}'' @ LF, ''data: {"content": "hi"}'' @ LF]
       (world.extend fresh_session (cycle.fields JNull []))
     = read_loop JSON_parse_sample (onEvent toLowerCase_ascii) []
       [''data: {"content": "hi"}'' @ LF]
       (world.extend fresh_session (cycle.fields JNull []))\<close>
    using t1 k1 nolf by simp
  have c: \<open>streamingContent
     (process_line JSON_parse_sample (onEvent toLowerCase_ascii)
        (world.extend fresh_session (cycle.fields JNull [])) (''data: '' @ ''{"content": "hi"}''))
     = ''hi''\<close>
    using t2 k2 by (simp add: onEvent_def Let_def world.defs cycle.defs)
  show ?thesis using p1 p2 k1 k2 a b c by simp
qed

text \<open>
  Claim C5 as the specification states it (only an empty payload is \<^verbatim>\<open>done\<close>, any other
  shape gives no event) fails for the record \<^verbatim>\<open>5\<close>: by the specification's policy it
  has no kind, yet the decoder delivers \<^verbatim>\<open>done\<close> and the cycle ends, where a record of
  an unknown shape leaves the session loading.
\<close>

theorem number_payload_is_delivered_as_done:
  \<open>JSON_parse_sample ''5'' = Some (JNum ''5'') \<and>
   spec_kind (JNum ''5'') = None \<and>
   sendMessage JSON_parse_sample toLowerCase_ascii fresh_session ''hello''
       (Stream [''data: {"content": "hi"}'' @ LF @ ''data: 5'' @ LF] None) fresh_session
     = fresh_session\<lparr>messages := [\<lparr>role = user, content = ''hello''\<rparr>,
                                   \<lparr>role = model, content = ''hi''\<rparr>],
         requests := [(''hello'', JNull)]\<rparr> \<and>
   spec_kind (JObj [(''foo'', JNum ''1'')]) = None \<and>
   sendMessage JSON_parse_sample toLowerCase_ascii fresh_session ''hello''
       (Stream [''data: {"content": "hi"}'' @ LF @ ''data: {"foo": 1}'' @ LF] None)
       fresh_session
     = fresh_session\<lparr>messages := [\<lparr>role = user, content = ''hello''\<rparr>], isLoading := True,
         streamingContent := ''hi'', requests := [(''hello'', JNull)]\<rparr>\<close>
  by code_simp

text \<open>
  Claim C6, as the code has it. Let the text of the body be the lines \<open>ls\<close>, each ended
  by a line feed, and then \<open>tail\<close>, the text after the last line feed. However that text
  is cut into chunks, also in the middle of a line, the decoder processes exactly the
  lines \<open>ls\<close>, each once and in their order, as it does on the text in one piece, and so
  reaches the same state. The \<open>tail\<close> is not decoded.
\<close>

theorem decoder_chunking_invariance:
  assumes "concat chunks = concat (map (\<lambda>l. l @ LF) ls) @ tail"
    and "\<forall>l \<in> set ls. CHR 0x0A \<notin> set l" and "CHR 0x0A \<notin> set tail"
  shows "read_loop JSON_parse callback [] chunks s = foldl (process_line JSON_parse callback) s ls \<and>
         read_loop JSON_parse callback [] chunks s = read_loop JSON_parse callback [] [concat chunks] s \<and>
         chatApi_sendMessage JSON_parse message conversationId callback (Stream chunks end) s =
           chatApi_sendMessage JSON_parse message conversationId callback
             (Stream [concat chunks] end) s"
proof -
  have sp: "butlast (split (concat chunks)) = ls"
    by (simp add: assms(1) split_lines_tail[OF assms(2,3)])
  have a: "read_loop JSON_parse callback [] chunks s
             = foldl (process_line JSON_parse callback) s ls" for s :: "'a world_scheme"
    by (simp add: read_loop_lines sp)
  have b: "read_loop JSON_parse callback [] [concat chunks] s
             = foldl (process_line JSON_parse callback) s ls" for s :: "'a world_scheme"
    using read_loop_lines[of "[]" JSON_parse callback "[concat chunks]" s] by (simp add: sp)
  have c: "chatApi_sendMessage JSON_parse message conversationId callback (Stream chunks end) s =
           chatApi_sendMessage JSON_parse message conversationId callback
             (Stream [concat chunks] end) s"
    by (simp only: chatApi_sendMessage_def response.case a b)
  show ?thesis using a b c by simp
qed

text \<open>
  An instance: a \<^verbatim>\<open>delta\<close> record cut in two by the chunks, followed by text without a
  line feed.
\<close>

theorem decoder_chunking_witness:
  \<open>concat [''data: {"con'', ''tent": "hi"}'' @ LF @ ''data: {}'']
     = concat (map (\<lambda>l. l @ LF) [''data: {"content": "hi"}'']) @ ''data: {}'' \<and>
   CHR 0x0A \<notin> set ''data: {"content": "hi"}'' \<and>
   CHR 0x0A \<notin> set ''data: {}'' \<and>
   read_loop JSON_parse_sample (onEvent toLowerCase_ascii) []
       [''data: {"con'', ''tent": "hi"}'' @ LF @ ''data: {}'']
       (world.extend fresh_session (cycle.fields JNull []))
     = world.extend (fresh_session\<lparr>streamingContent := ''hi''\<rparr>) (cycle.fields JNull ''hi'')\<close>
proof -
  have h1: \<open>concat [''data: {"con'', ''tent": "hi"}'' @ LF @ ''data: {}'']
     = concat (map (\<lambda>l. l @ LF) [''data: {"content": "hi"}'']) @ ''data: {}''\<close>
    by simp
  have h2: \<open>\<forall>l \<in> set [''data: {"content": "hi"}'']. CHR 0x0A \<notin> set l\<close> by simp
  have h3: \<open>CHR 0x0A \<notin> set ''data: {}''\<close> by simp
  have line: \<open>process_line JSON_parse_sample (onEvent toLowerCase_ascii)
       (world.extend fresh_session (cycle.fields JNull [])) ''data: {"content": "hi"}''
     = world.extend (fresh_session\<lparr>streamingContent := ''hi''\<rparr>) (cycle.fields JNull ''hi'')\<close>
    by (simp add: process_line_def startsWith_def dispatch_def onEvent_def
          JSON_parse_sample_def fresh_session_def world.defs cycle.defs Let_def)
  have \<open>read_loop JSON_parse_sample (onEvent toLowerCase_ascii) []
       [''data: {"con'', ''tent": "hi"}'' @ LF @ ''data: {}'']
       (world.extend fresh_session (cycle.fields JNull []))
     = foldl (process_line JSON_parse_sample (onEvent toLowerCase_ascii))
         (world.extend fresh_session (cycle.fields JNull [])) [''data: {"content": "hi"}'']\<close>
    using decoder_chunking_invariance[OF h1 h2 h3, of JSON_parse_sample
        "onEvent toLowerCase_ascii" "world.extend fresh_session (cycle.fields JNull [])"]
    by blast
  then show ?thesis using h1 h3 line by simp
qed

text \<open>
  Claim C6 as the specification states it (no bytes are discarded) fails for a body
  whose last record is not ended by a line feed: the \<^verbatim>\<open>done\<close> record is read and never
  decoded, so the reply is not committed and the session stays loading, where the same
  body with a final line feed completes the cycle.
\<close>

theorem unterminated_last_record_is_discarded:
  \<open>sendMessage JSON_parse_sample toLowerCase_ascii fresh_session ''hello''
       (Stream [''data: {"content": "hi"}'' @ LF @ ''data: {}''] None) fresh_session
     = fresh_session\<lparr>messages := [\<lparr>role = user, content = ''hello''\<rparr>], isLoading := True,
         streamingContent := ''hi'', requests := [(''hello'', JNull)]\<rparr> \<and>
   sendMessage JSON_parse_sample toLowerCase_ascii fresh_session ''hello''
       (Stream [''data: {"content": "hi"}'' @ LF @ ''data: {}'' @ LF] None) fresh_session
     = fresh_session\<lparr>messages := [\<lparr>role = user, content = ''hello''\<rparr>,
                                   \<lparr>role = model, content = ''hi''\<rparr>],
         requests := [(''hello'', JNull)]\<rparr>\<close>
  by code_simp

text \<open>
  Claim C7. Handing an id and a title to the list synchronizer: if an entry has that id,
  the list keeps its length and the order of its ids, the entries with that id get the
  title and the others are unchanged; otherwise one entry with the id and the title is
  put at the head. A second call with the same pair changes nothing, nor do any number
  of further calls; and after any sequence of calls the list has grown by one entry for
  each id that was not in it, however often that id was handed in.
\<close>

theorem list_synchronizer_upsert_idempotent:
  "(list_ex (\<lambda>c. id' c = i) prev \<longrightarrow>
      length (syncConversations i t prev) = length prev \<and>
      map id' (syncConversations i t prev) = map id' prev \<and>
      (\<forall>k < length prev.
         syncConversations i t prev ! k =
           (if id' (prev ! k) = i then (prev ! k)\<lparr>title := t\<rparr> else prev ! k))) \<and>
   (\<not> list_ex (\<lambda>c. id' c = i) prev \<longrightarrow>
      syncConversations i t prev = \<lparr>id' = i, title = t\<rparr> # prev) \<and>
   syncConversations i t (syncConversations i t prev) = syncConversations i t prev \<and>
   (syncConversations i t ^^ Suc n) prev = syncConversations i t prev \<and>
   length (fold (\<lambda>(i, t). syncConversations i t) calls prev) =
     length prev + card (fst ` set calls - id' ` set prev)"
proof (intro conjI impI allI)
  assume ex: "list_ex (\<lambda>c. id' c = i) prev"
  show "length (syncConversations i t prev) = length prev"
    by (simp add: sync_exists[OF ex])
  show "map id' (syncConversations i t prev) = map id' prev"
    using ex by (simp add: sync_map_ids)
  fix k assume "k < length prev"
  then show "syncConversations i t prev ! k =
           (if id' (prev ! k) = i then (prev ! k)\<lparr>title := t\<rparr> else prev ! k)"
    by (simp add: sync_exists[OF ex])
next
  assume "\<not> list_ex (\<lambda>c. id' c = i) prev"
  then show "syncConversations i t prev = \<lparr>id' = i, title = t\<rparr> # prev" by (rule sync_fresh)
next
  show "syncConversations i t (syncConversations i t prev) = syncConversations i t prev"
    by (rule sync_idem)
  show "(syncConversations i t ^^ Suc n) prev = syncConversations i t prev"
    by (rule sync_funpow)
  show "length (fold (\<lambda>(i, t). syncConversations i t) calls prev) =
     length prev + card (fst ` set calls - id' ` set prev)"
    by (rule sync_fold_length)
qed

text \<open>
  An instance of each case, and three calls that insert once.
\<close>

theorem list_synchronizer_witness:
  "list_ex (\<lambda>c. id' c = JStr ''c1'')
     [\<lparr>id' = JStr ''c0'', title = JStr ''Old''\<rparr>, \<lparr>id' = JStr ''c1'', title = JNull\<rparr>] \<and>
   syncConversations (JStr ''c1'') (JStr ''Greeting'')
     [\<lparr>id' = JStr ''c0'', title = JStr ''Old''\<rparr>, \<lparr>id' = JStr ''c1'', title = JNull\<rparr>]
     = [\<lparr>id' = JStr ''c0'', title = JStr ''Old''\<rparr>, \<lparr>id' = JStr ''c1'', title = JStr ''Greeting''\<rparr>] \<and>
   \<not> list_ex (\<lambda>c. id' c = JStr ''c2'')
     [\<lparr>id' = JStr ''c0'', title = JStr ''Old''\<rparr>, \<lparr>id' = JStr ''c1'', title = JNull\<rparr>] \<and>
   syncConversations (JStr ''c2'') (JStr ''Greeting'')
     [\<lparr>id' = JStr ''c0'', title = JStr ''Old''\<rparr>, \<lparr>id' = JStr ''c1'', title = JNull\<rparr>]
     = [\<lparr>id' = JStr ''c2'', title = JStr ''Greeting''\<rparr>,
        \<lparr>id' = JStr ''c0'', title = JStr ''Old''\<rparr>, \<lparr>id' = JStr ''c1'', title = JNull\<rparr>] \<and>
   length (fold (\<lambda>(i, t). syncConversations i t)
             [(JStr ''c2'', JStr ''A''), (JStr ''c2'', JStr ''B''), (JStr ''c1'', JStr ''C'')]
             [\<lparr>id' = JStr ''c0'', title = JStr ''Old''\<rparr>, \<lparr>id' = JStr ''c1'', title = JNull\<rparr>]) = 3"
  using
    list_synchronizer_upsert_idempotent
      [of "JStr ''c1''"
          "[\<lparr>id' = JStr ''c0'', title = JStr ''Old''\<rparr>, \<lparr>id' = JStr ''c1'', title = JNull\<rparr>]"
          "JStr ''Greeting''" 0 "[]"]
    list_synchronizer_upsert_idempotent
      [of "JStr ''c2''"
          "[\<lparr>id' = JStr ''c0'', title = JStr ''Old''\<rparr>, \<lparr>id' = JStr ''c1'', title = JNull\<rparr>]"
          "JStr ''Greeting''" 0
          "[(JStr ''c2'', JStr ''A''), (JStr ''c2'', JStr ''B''), (JStr ''c1'', JStr ''C'')]"]
  by (simp add: syncConversations_def)

text \<open>
  Claim C8, as the code has it. For an \<^verbatim>\<open>error\<close> event whose message is the string
  \<open>m\<close>, the text is \<open>m\<close>, or \<^verbatim>\<open>An error occurred\<close> when \<open>m\<close> is empty. The content is the
  text behind the banner when the lower-cased text contains one of \<^verbatim>\<open>credit\<close>,
  \<^verbatim>\<open>limit\<close>, \<^verbatim>\<open>quota\<close>, \<^verbatim>\<open>rate limit\<close>, and the text itself otherwise. When the
  store's accesses do not throw, that content is appended to the transcript as an
  \<^verbatim>\<open>error\<close> message, and, if the cycle has a conversation id (not \<^verbatim>\<open>null\<close>, not
  empty) other than \<^verbatim>\<open>__proto__\<close>, reading the store for it gives the same content;
  without an id the store is left as it was.
\<close>

theorem error_event_classified_and_stored:
  assumes "member d ''message'' = JStr m"
    and "getItem_throws (localStorage c) = None"
    and "setItem_throws (localStorage c) = None"
  shows "case onEvent toLowerCase (Error, d) c of
           Thrown c' \<Rightarrow> False
         | Returned c' \<Rightarrow>
             messages c' = messages c @
               [\<lparr>role = error,
                 content = classified toLowerCase (if m = [] then ''An error occurred'' else m)\<rparr>] \<and>
             (truthy (newConversationId c) \<and> ToString (newConversationId c) \<noteq> ''__proto__'' \<longrightarrow>
                fst (getErrorForConversation (newConversationId c) c') =
                  Some (classified toLowerCase (if m = [] then ''An error occurred'' else m))) \<and>
             (\<not> truthy (newConversationId c) \<longrightarrow> localStorage c' = localStorage c) \<and>
             \<not> isLoading c' \<and> streamingContent c' = []"
proof -
  let ?text = "if m = [] then ''An error occurred'' else m"
  let ?shown = "classified toLowerCase ?text"
  have ne: "?shown \<noteq> []" by (rule classified_nonempty) simp
  show ?thesis
  proof (cases "truthy (newConversationId c)")
    case True
    obtain c1 where st: "storeError (newConversationId c) ?shown c = Returned c1"
      using assms(3) by (simp add: storeError_cases)
    have m1: "messages c1 = messages c"
      using st assms(3) by (auto simp: storeError_cases)
    let ?c' = "c1\<lparr>messages := messages c1 @ [\<lparr>role = error, content = ?shown\<rparr>],
                   streamingContent := [], isLoading := False\<rparr>"
    have ev: "onEvent toLowerCase (Error, d) c = Returned ?c'"
      using True st by (simp add: onEvent_Error[OF assms(1)])
    have "fst (getErrorForConversation (newConversationId c) ?c') = Some ?shown"
      if key: "ToString (newConversationId c) \<noteq> ''__proto__''"
    proof -
      have g: "fst (getErrorForConversation (newConversationId c) c1) = Some ?shown"
        using st assms(2) ne key by (rule get_after_store)
      show ?thesis using g get_depends_on_storage[of ?c' c1] by simp
    qed
    then show ?thesis using True m1 by (simp add: ev)
  next
    case False
    then show ?thesis by (simp add: onEvent_Error[OF assms(1)])
  qed
qed

text \<open>
  An instance: \<^verbatim>\<open>Rate limit exceeded\<close> in a cycle on \<^verbatim>\<open>c1\<close> is stored and shown behind
  the banner; \<^verbatim>\<open>unknown failure\<close> would be kept as it is.
\<close>

theorem error_event_witness:
  "member (JObj [(''message'', JStr ''Rate limit exceeded'')]) ''message''
     = JStr ''Rate limit exceeded'' \<and>
   getItem_throws (localStorage
     (world.extend sticky_session (cycle.fields (JStr ''c1'') []))) = None \<and>
   setItem_throws (localStorage
     (world.extend sticky_session (cycle.fields (JStr ''c1'') []))) = None \<and>
   ToString (JStr ''c1'') \<noteq> ''__proto__'' \<and>
   classified toLowerCase_ascii ''Rate limit exceeded'' = banner @ ''Rate limit exceeded'' \<and>
   classified toLowerCase_ascii ''unknown failure'' = ''unknown failure'' \<and>
   (case onEvent toLowerCase_ascii (Error, JObj [(''message'', JStr ''Rate limit exceeded'')])
           (world.extend sticky_session (cycle.fields (JStr ''c1'') [])) of
      Thrown c' \<Rightarrow> False
    | Returned c' \<Rightarrow>
        messages c' = [\<lparr>role = error, content = banner @ ''Rate limit exceeded''\<rparr>] \<and>
        fst (getErrorForConversation (JStr ''c1'') c') = Some (banner @ ''Rate limit exceeded''))"
proof -
  let ?d = "JObj [(''message'', JStr ''Rate limit exceeded'')]"
  let ?c = "world.extend sticky_session (cycle.fields (JStr ''c1'') [])"
  have a: "member ?d ''message'' = JStr ''Rate limit exceeded''" by simp
  have b: "getItem_throws (localStorage ?c) = None" "setItem_throws (localStorage ?c) = None"
    by (simp_all add: sticky_session_def fresh_session_def world.defs cycle.defs)
  have k1: "classified toLowerCase_ascii ''Rate limit exceeded'' = banner @ ''Rate limit exceeded''"
    by (simp add: classified_def quota_terms_def toLowerCase_ascii_def startsWith_def)
  have k2: "classified toLowerCase_ascii ''unknown failure'' = ''unknown failure''"
    by (simp add: classified_def quota_terms_def toLowerCase_ascii_def startsWith_def)
  have f: "messages ?c = []" "newConversationId ?c = JStr ''c1''"
    by (simp_all add: sticky_session_def fresh_session_def world.defs cycle.defs)
  show ?thesis
    using error_event_classified_and_stored[OF a b, of toLowerCase_ascii] a b k1 k2 f
    by (simp split: outcome.splits)
qed

text \<open>
  Claim C8 as the specification states it (the content is the message itself unless a
  term matches) fails for the empty message: the transcript shows the default text.
\<close>

theorem empty_error_message_is_replaced:
  \<open>messages (sendMessage JSON_parse_sample toLowerCase_ascii fresh_session ''hello''
       (Stream [''data: {"message": ""}'' @ LF] None) fresh_session)
     = [\<lparr>role = user, content = ''hello''\<rparr>,
        \<lparr>role = error, content = ''An error occurred''\<rparr>]\<close>
  by code_simp

text \<open>
  Claim C9, at an input where the code does not do what the claim says. With a storage
  that is full, \<^verbatim>\<open>storeError\<close> and \<^verbatim>\<open>removeError\<close> throw: \<^verbatim>\<open>setItem\<close> is called
  outside any \<^verbatim>\<open>try\<close>, unlike the read in \<^verbatim>\<open>getStoredErrors\<close>. In a cycle the throw
  leaves the \<^verbatim>\<open>error\<close> case before the message is appended and before the session is
  reset: the transcript has no \<^verbatim>\<open>error\<close> message and the session stays loading.
\<close>

theorem store_write_failure_is_thrown:
  \<open>storeError (JStr ''c1'') ''boom'' quota_session = Thrown quota_session \<and>
   removeError (JStr ''c1'') quota_session = Thrown quota_session \<and>
   sendMessage JSON_parse_sample toLowerCase_ascii quota_session ''hello''
       (Stream [''data: {"message": "unknown failure"}'' @ LF] None) quota_session
     = quota_session\<lparr>messages := [\<lparr>role = user, content = ''hello''\<rparr>], isLoading := True,
         requests := [(''hello'', JStr ''c1'')],
         console := [''Failed to parse SSE data:'']\<rparr>\<close>
  by code_simp




end
